theory Spec2Isabelle
  imports Complex_Main
begin

section \<open>Data model\<close>

text \<open>
  JavaScript numbers are modelled as \<^typ>\<open>real\<close>: arithmetic is exact, and the special
  values NaN and Infinity do not exist.  A dimension of zero in a division is therefore outside
  the model (HOL gives \<open>x / 0 = 0\<close>, JavaScript gives Infinity or NaN).

  An object literal of numeric fields is an association list in the order the source writes
  the fields; a field that is absent reads as \<open>None\<close> (\<open>undefined\<close>).
\<close>

type_synonym js_object = "(string \<times> real) list"

text \<open>
  \<open>types.ts\<close>: \<open>ImageFile\<close>, \<open>Flag\<close>, \<open>EditState\<close> and \<open>DEFAULT_EDIT_STATE\<close>.  The
  last three fields of \<open>EditState\<close> are not in the interface: the edit panel writes them
  (\<open>handleChange('highlights', v)\<close> and so on) and the preview effect reads them; they are
  \<open>undefined\<close>, here \<open>None\<close>, in \<open>DEFAULT_EDIT_STATE\<close>.
\<close>

record ImageFile =
  file_id :: string
  path :: string
  filename :: string
  extension :: string
  fileSize :: real
  modifiedAt :: string
  isRaw :: bool
  dimensions :: "(real \<times> real) option"

datatype Flag = flag_none | flag_pick | flag_reject

record EditState =
  rating :: real
  flag :: Flag
  crop :: "js_object option"
  straightenAngle :: real
  rotation :: real
  exposure :: real
  contrast :: real
  whiteBalanceTemp :: real
  whiteBalanceTint :: real
  saturation :: real
  vibrance :: real
  sharpeningAmount :: real
  sharpeningRadius :: real
  highlights :: "real option"
  shadows :: "real option"
  noiseReduction :: "real option"

definition DEFAULT_EDIT_STATE :: EditState where
  "DEFAULT_EDIT_STATE =
     \<lparr> rating = 0, flag = flag_none, crop = None, straightenAngle = 0, rotation = 0,
       exposure = 0, contrast = 0, whiteBalanceTemp = 5500, whiteBalanceTint = 0,
       saturation = 0, vibrance = 0, sharpeningAmount = 0, sharpeningRadius = 1,
       highlights = None, shadows = None, noiseReduction = None \<rparr>"

text \<open>
  \<open>types.ts\<close> declares \<open>interface CropRect { top; left; bottom; right }\<close>, and the API
  contract annotates it \<open>0.0 to 1.0 (normalized)\<close>.  The predicate says that an object has
  these four fields, each within the unit interval.
\<close>

definition unit_field :: "js_object \<Rightarrow> string \<Rightarrow> bool" where
  "unit_field obj k = (case map_of obj k of None \<Rightarrow> False | Some v \<Rightarrow> 0 \<le> v \<and> v \<le> 1)"

definition normalized_CropRect :: "js_object \<Rightarrow> bool" where
  "normalized_CropRect obj =
     (unit_field obj ''top'' \<and> unit_field obj ''left'' \<and>
      unit_field obj ''bottom'' \<and> unit_field obj ''right'')"

section \<open>The viewport and the crop tool (\<open>MainPreview.tsx\<close>)\<close>

record point =
  pt_x :: real
  pt_y :: real

record rect =
  rect_x :: real
  rect_y :: real
  rect_width :: real
  rect_height :: real

text \<open>What \<open>getBoundingClientRect()\<close> returns, and the image element with its natural size.\<close>

record dom_rect =
  dr_left :: real
  dr_top :: real
  dr_width :: real
  dr_height :: real

record img_element =
  boundingClientRect :: dom_rect
  naturalWidth :: real
  naturalHeight :: real

datatype drag_mode = drag_create | drag_move | resize_nw | resize_ne | resize_sw | resize_se

datatype CompareMode = cmp_off | cmp_split | cmp_toggle

text \<open>
  The component's \<open>useState\<close> cells and refs that the pointer, wheel and button handlers read
  and write, with the two store fields they touch (\<open>cropMode\<close>, \<open>editStates\<close>).
\<close>

record view =
  zoomLevel :: real
  panOffset :: point
  isPanning :: bool
  aspectRatio :: "real option"
  cropRect :: "rect option"
  isDraggingCrop :: bool
  cropStart :: "point option"
  cropDragMode :: "drag_mode option"
  cropDragOffset :: point
  splitPosition :: real
  isDraggingSplit :: bool
  lastPanPos :: point
  cropMode :: bool
  editStates :: "string \<Rightarrow> EditState option"

definition init_view :: view where
  "init_view =
     \<lparr> zoomLevel = 1, panOffset = \<lparr>pt_x = 0, pt_y = 0\<rparr>, isPanning = False,
       aspectRatio = None, cropRect = None, isDraggingCrop = False, cropStart = None,
       cropDragMode = None, cropDragOffset = \<lparr>pt_x = 0, pt_y = 0\<rparr>,
       splitPosition = 50, isDraggingSplit = False,
       lastPanPos = \<lparr>pt_x = 0, pt_y = 0\<rparr>, cropMode = False, editStates = Map.empty \<rparr>"

text \<open>The table of selectable aspect ratios; \<open>None\<close> is the label \<open>Free\<close>.\<close>

definition ASPECT_RATIOS :: "(string \<times> real option) list" where
  "ASPECT_RATIOS =
     [(''Free'', None), (''1:1'', Some 1), (''4:3'', Some (4/3)), (''3:2'', Some (3/2)),
      (''16:9'', Some (16/9)), (''9:16'', Some (9/16)), (''3:4'', Some (3/4)),
      (''2:3'', Some (2/3))]"

text \<open>
  The test \<open>aspectRatio ? a : b\<close>: \<open>null\<close> and \<open>0\<close> are falsy, every other number is truthy.
\<close>

definition locked :: "real option \<Rightarrow> bool" where
  "locked a = (case a of None \<Rightarrow> False | Some r \<Rightarrow> r \<noteq> 0)"

subsection \<open>Zoom\<close>

definition handleWheel :: "real \<Rightarrow> view \<Rightarrow> view" where
  "handleWheel deltaY s =
     (if cropMode s then s
      else let delta = (if deltaY > 0 then 9/10 else 11/10)
           in s\<lparr>zoomLevel := max (1/2) (min 5 (zoomLevel s * delta))\<rparr>)"

definition handleDoubleClick :: "view \<Rightarrow> view" where
  "handleDoubleClick s =
     (if cropMode s then s
      else if zoomLevel s = 1 then s\<lparr>zoomLevel := 2\<rparr>
      else s\<lparr>zoomLevel := 1, panOffset := \<lparr>pt_x = 0, pt_y = 0\<rparr>\<rparr>)"

definition resetZoom :: "view \<Rightarrow> view" where
  "resetZoom s = s\<lparr>zoomLevel := 1, panOffset := \<lparr>pt_x = 0, pt_y = 0\<rparr>\<rparr>"

definition zoomOutClick :: "view \<Rightarrow> view" where
  "zoomOutClick s = s\<lparr>zoomLevel := max (1/2) (zoomLevel s - 1/4)\<rparr>"

definition zoomInClick :: "view \<Rightarrow> view" where
  "zoomInClick s = s\<lparr>zoomLevel := min 5 (zoomLevel s + 1/4)\<rparr>"

subsection \<open>Pointer handlers\<close>

text \<open>
  The hit test of \<open>handleMouseDown\<close> on an existing rectangle, \<open>handleSize = 15\<close>: corners
  first, in the order nw, ne, sw, se, then the body; \<open>None\<close> is the fall-through to a new
  rectangle.
\<close>

definition hit_existing :: "rect \<Rightarrow> real \<Rightarrow> real \<Rightarrow> drag_mode option" where
  "hit_existing c x y =
     (let handleSize = 15;
          inLeft = (x \<ge> rect_x c - handleSize \<and> x \<le> rect_x c + handleSize);
          inRight = (x \<ge> rect_x c + rect_width c - handleSize \<and>
                     x \<le> rect_x c + rect_width c + handleSize);
          inTop = (y \<ge> rect_y c - handleSize \<and> y \<le> rect_y c + handleSize);
          inBottom = (y \<ge> rect_y c + rect_height c - handleSize \<and>
                      y \<le> rect_y c + rect_height c + handleSize);
          inBoxX = (x \<ge> rect_x c \<and> x \<le> rect_x c + rect_width c);
          inBoxY = (y \<ge> rect_y c \<and> y \<le> rect_y c + rect_height c)
      in if inLeft \<and> inTop then Some resize_nw
         else if inRight \<and> inTop then Some resize_ne
         else if inLeft \<and> inBottom then Some resize_sw
         else if inRight \<and> inBottom then Some resize_se
         else if inBoxX \<and> inBoxY then Some drag_move
         else None)"

definition start_create :: "real \<Rightarrow> real \<Rightarrow> view \<Rightarrow> view" where
  "start_create x y s =
     s\<lparr>cropStart := Some \<lparr>pt_x = x, pt_y = y\<rparr>, cropDragMode := Some drag_create,
       isDraggingCrop := True,
       cropRect := Some \<lparr>rect_x = x, rect_y = y, rect_width = 0, rect_height = 0\<rparr>\<rparr>"

definition start_drag :: "drag_mode \<Rightarrow> rect \<Rightarrow> real \<Rightarrow> real \<Rightarrow> view \<Rightarrow> view" where
  "start_drag m c x y s =
     (if m = drag_move
      then s\<lparr>cropDragMode := Some drag_move,
             cropDragOffset := \<lparr>pt_x = x - rect_x c, pt_y = y - rect_y c\<rparr>,
             isDraggingCrop := True\<rparr>
      else s\<lparr>cropDragMode := Some m, isDraggingCrop := True\<rparr>)"

definition handleMouseDown :: "dom_rect option \<Rightarrow> real \<Rightarrow> real \<Rightarrow> view \<Rightarrow> view" where
  "handleMouseDown container clientX clientY s =
     (if cropMode s then
        (case container of
           None \<Rightarrow> s
         | Some r \<Rightarrow>
             let x = clientX - dr_left r; y = clientY - dr_top r in
             (case cropRect s of
                None \<Rightarrow> start_create x y s
              | Some c \<Rightarrow>
                  if rect_width c > 0 \<and> rect_height c > 0 then
                    (case hit_existing c x y of
                       Some m \<Rightarrow> start_drag m c x y s
                     | None \<Rightarrow> start_create x y s)
                  else start_create x y s))
      else if zoomLevel s > 1 then
        s\<lparr>isPanning := True, lastPanPos := \<lparr>pt_x = clientX, pt_y = clientY\<rparr>\<rparr>
      else s)"

text \<open>The rectangle computed while creating: negative extents flip the origin.\<close>

definition create_rect :: "real option \<Rightarrow> point \<Rightarrow> real \<Rightarrow> real \<Rightarrow> rect" where
  "create_rect ar st mouseX mouseY =
     (let width = mouseX - pt_x st;
          height = mouseY - pt_y st;
          x = (if width < 0 then pt_x st + width else pt_x st);
          width' = (if width < 0 then - width else width);
          y = (if height < 0 then pt_y st + height else pt_y st);
          height' = (if height < 0 then - height else height);
          height'' = (if locked ar then width' / the ar else height')
      in \<lparr>rect_x = x, rect_y = y, rect_width = width', rect_height = height''\<rparr>)"

definition move_rect :: "dom_rect \<Rightarrow> point \<Rightarrow> rect \<Rightarrow> real \<Rightarrow> real \<Rightarrow> rect" where
  "move_rect r offs c mouseX mouseY =
     (let newX = max 0 (min (dr_width r - rect_width c) (mouseX - pt_x offs));
          newY = max 0 (min (dr_height r - rect_height c) (mouseY - pt_y offs))
      in c\<lparr>rect_x := newX, rect_y := newY\<rparr>)"

text \<open>
  The four resize branches.  The width is floored at 20 in each; the height is floored at 20
  only in the free branch of the conditional, and is \<open>width / aspectRatio\<close> in the locked one.
\<close>

definition resize_rect :: "drag_mode \<Rightarrow> real option \<Rightarrow> rect \<Rightarrow> real \<Rightarrow> real \<Rightarrow> rect" where
  "resize_rect m ar c mouseX mouseY =
     (if m = resize_se then
        (let w = max 20 (mouseX - rect_x c);
             h = (if locked ar then w / the ar else max 20 (mouseY - rect_y c))
         in c\<lparr>rect_width := w, rect_height := h\<rparr>)
      else if m = resize_sw then
        (let newWidth = max 20 (rect_x c + rect_width c - mouseX);
             h = (if locked ar then newWidth / the ar else max 20 (mouseY - rect_y c))
         in c\<lparr>rect_x := rect_x c + rect_width c - newWidth, rect_width := newWidth,
              rect_height := h\<rparr>)
      else if m = resize_ne then
        (let w = max 20 (mouseX - rect_x c);
             newHeight = (if locked ar then w / the ar
                          else max 20 (rect_y c + rect_height c - mouseY))
         in c\<lparr>rect_width := w, rect_y := rect_y c + rect_height c - newHeight,
              rect_height := newHeight\<rparr>)
      else if m = resize_nw then
        (let newWidth = max 20 (rect_x c + rect_width c - mouseX);
             newHeight = (if locked ar then newWidth / the ar
                          else max 20 (rect_y c + rect_height c - mouseY))
         in c\<lparr>rect_x := rect_x c + rect_width c - newWidth,
              rect_y := rect_y c + rect_height c - newHeight,
              rect_width := newWidth, rect_height := newHeight\<rparr>)
      else c)"

definition is_resize :: "drag_mode \<Rightarrow> bool" where
  "is_resize m = (m = resize_nw \<or> m = resize_ne \<or> m = resize_sw \<or> m = resize_se)"

definition handleMouseMove :: "dom_rect option \<Rightarrow> real \<Rightarrow> real \<Rightarrow> view \<Rightarrow> view" where
  "handleMouseMove container clientX clientY s =
     (if isDraggingCrop s \<and> cropMode s then
        (case container of
           None \<Rightarrow> s
         | Some r \<Rightarrow>
             let mouseX = clientX - dr_left r; mouseY = clientY - dr_top r in
             (case (cropDragMode s, cropStart s, cropRect s) of
                (Some drag_create, Some st, _) \<Rightarrow>
                  s\<lparr>cropRect := Some (create_rect (aspectRatio s) st mouseX mouseY)\<rparr>
              | (Some drag_create, None, _) \<Rightarrow> s
              | (Some drag_move, _, Some c) \<Rightarrow>
                  s\<lparr>cropRect := Some (move_rect r (cropDragOffset s) c mouseX mouseY)\<rparr>
              | (Some m, _, Some c) \<Rightarrow>
                  if is_resize m
                  then s\<lparr>cropRect := Some (resize_rect m (aspectRatio s) c mouseX mouseY)\<rparr>
                  else s
              | _ \<Rightarrow> s))
      else if isPanning s then
        (let dx = clientX - pt_x (lastPanPos s); dy = clientY - pt_y (lastPanPos s) in
         s\<lparr>lastPanPos := \<lparr>pt_x = clientX, pt_y = clientY\<rparr>,
           panOffset := \<lparr>pt_x = pt_x (panOffset s) + dx, pt_y = pt_y (panOffset s) + dy\<rparr>\<rparr>)
      else s)"

definition handleSplitMouseMove :: "dom_rect option \<Rightarrow> real \<Rightarrow> view \<Rightarrow> view" where
  "handleSplitMouseMove container clientX s =
     (case container of
        None \<Rightarrow> s
      | Some r \<Rightarrow>
          if isDraggingSplit s then
            (let x = clientX - dr_left r; percent = (x / dr_width r) * 100
             in s\<lparr>splitPosition := max 5 (min 95 percent)\<rparr>)
          else s)"

definition handleMouseUp :: "view \<Rightarrow> view" where
  "handleMouseUp s =
     (let keep = (isDraggingCrop s \<and>
                  (case cropRect s of None \<Rightarrow> False
                   | Some c \<Rightarrow> rect_width c > 10 \<and> rect_height c > 10));
          s1 = s\<lparr>isPanning := False\<rparr>;
          s2 = (if keep then s1
                else if cropDragMode s = Some drag_create then s1\<lparr>cropRect := None\<rparr>
                else s1)
      in s2\<lparr>isDraggingCrop := False, cropStart := None, cropDragMode := None\<rparr>)"

definition handleSplitMouseUp :: "view \<Rightarrow> view" where
  "handleSplitMouseUp s = s\<lparr>isDraggingSplit := False\<rparr>"

subsection \<open>Commit and cancel\<close>

text \<open>The store's \<open>updateEdit(fileId, { crop })\<close>: merge over the stored state or the default.\<close>

definition updateEdit_crop :: "string \<Rightarrow> js_object \<Rightarrow> view \<Rightarrow> view" where
  "updateEdit_crop fid c s =
     s\<lparr>editStates := (editStates s)
         (fid \<mapsto> (case editStates s fid of None \<Rightarrow> DEFAULT_EDIT_STATE | Some e \<Rightarrow> e)
                   \<lparr>crop := Some c\<rparr>)\<rparr>"

text \<open>The object literal \<open>applyCrop\<close> passes as the new \<open>crop\<close>.\<close>

definition crop_literal :: "rect \<Rightarrow> img_element \<Rightarrow> dom_rect \<Rightarrow> js_object" where
  "crop_literal c img containerRect =
     (let imgRect = boundingClientRect img;
          imgOffsetX = dr_left imgRect - dr_left containerRect;
          imgOffsetY = dr_top imgRect - dr_top containerRect;
          scaleX = naturalWidth img / dr_width imgRect;
          scaleY = naturalHeight img / dr_height imgRect;
          cropX = max 0 ((rect_x c - imgOffsetX) * scaleX);
          cropY = max 0 ((rect_y c - imgOffsetY) * scaleY);
          cropW = rect_width c * scaleX;
          cropH = rect_height c * scaleY
      in [(''x'', cropX), (''y'', cropY), (''width'', cropW), (''height'', cropH)])"

definition applyCrop ::
  "img_element option \<Rightarrow> dom_rect option \<Rightarrow> ImageFile option \<Rightarrow> view \<Rightarrow> view" where
  "applyCrop imageEl container file s =
     (case (cropRect s, imageEl, container, file) of
        (Some c, Some img, Some containerRect, Some f) \<Rightarrow>
          (updateEdit_crop (file_id f) (crop_literal c img containerRect) s)
            \<lparr>cropRect := None, cropMode := False\<rparr>
      | _ \<Rightarrow> s)"

definition cancelCrop :: "view \<Rightarrow> view" where
  "cancelCrop s = s\<lparr>cropRect := None, cropMode := False\<rparr>"

subsection \<open>Events\<close>

text \<open>
  One constructor per handler bound in the JSX.  A pointer move runs \<open>handleMouseMove\<close> and
  then \<open>handleSplitMouseMove\<close>; pointer up and pointer leave run \<open>handleMouseUp\<close> and then
  \<open>handleSplitMouseUp\<close>.  \<open>SetCropMode\<close> is the store's \<open>setCropMode\<close>, called by the edit
  panel's crop button.  Each event carries what the handler reads from the DOM.
\<close>

datatype ui_event =
    Wheel real
  | MouseDown "dom_rect option" real real
  | MouseMove "dom_rect option" real real
  | MouseUp
  | MouseLeave
  | DoubleClick
  | ZoomOutClick
  | ZoomInClick
  | FitClick
  | AspectClick "real option"
  | ApplyClick "img_element option" "dom_rect option" "ImageFile option"
  | CancelClick
  | SetCropMode bool
  | SplitMouseDown

fun ui_step :: "view \<Rightarrow> ui_event \<Rightarrow> view" where
  "ui_step s (Wheel deltaY) = handleWheel deltaY s"
| "ui_step s (MouseDown c cx cy) = handleMouseDown c cx cy s"
| "ui_step s (MouseMove c cx cy) = handleSplitMouseMove c cx (handleMouseMove c cx cy s)"
| "ui_step s MouseUp = handleSplitMouseUp (handleMouseUp s)"
| "ui_step s MouseLeave = handleSplitMouseUp (handleMouseUp s)"
| "ui_step s DoubleClick = handleDoubleClick s"
| "ui_step s ZoomOutClick = zoomOutClick s"
| "ui_step s ZoomInClick = zoomInClick s"
| "ui_step s FitClick = resetZoom s"
| "ui_step s (AspectClick a) = s\<lparr>aspectRatio := a\<rparr>"
| "ui_step s (ApplyClick i c f) = applyCrop i c f s"
| "ui_step s CancelClick = cancelCrop s"
| "ui_step s (SetCropMode b) = s\<lparr>cropMode := b\<rparr>"
| "ui_step s SplitMouseDown = s\<lparr>isDraggingSplit := True\<rparr>"

definition ui_run :: "ui_event list \<Rightarrow> view \<Rightarrow> view" where
  "ui_run evs s = foldl ui_step s evs"

section \<open>The preview scheduler (first effect of \<open>MainPreview\<close>)\<close>

text \<open>
  Time is in milliseconds.  A blob URL is the serial number \<open>URL.createObjectURL\<close> gave it,
  with the bytes it resolves to.
\<close>

type_synonym bytes = "nat list"
type_synonym url = "nat \<times> bytes"

text \<open>One call \<open>getPreview(fileId, edits, maxSize)\<close>, with the time of the call.\<close>

record request =
  req_time :: nat
  req_file :: string
  req_edits :: EditState
  req_maxSize :: nat

text \<open>
  The variables one run of the effect captures: \<open>file\<close>, \<open>edits\<close> and \<open>previewUrl\<close> of the
  render, its own \<open>cancelled\<close> flag, and when its \<open>setTimeout(loadPreview, 150)\<close> is due.
  A run is identified by its \<open>currentRequestId\<close>.
\<close>

record closure =
  c_file :: ImageFile
  c_edits :: EditState
  c_previewUrl :: "url option"
  c_cancelled :: bool
  c_deadline :: nat

text \<open>
  The dependency array of the effect, in the order the source lists it: \<open>file?.id\<close> and
  thirteen fields of \<open>edits\<close>.  It does not list \<open>sharpeningRadius\<close>, \<open>rating\<close> or \<open>flag\<close>.
\<close>

type_synonym preview_deps =
  "string option \<times> real \<times> real \<times> real option \<times> real option \<times> real \<times> real \<times> real \<times> real
   \<times> real \<times> real option \<times> real \<times> real \<times> js_object option"

definition preview_deps :: "ImageFile option \<Rightarrow> EditState \<Rightarrow> preview_deps" where
  "preview_deps f edits =
     (map_option file_id f, exposure edits, contrast edits, highlights edits, shadows edits,
      whiteBalanceTemp edits, whiteBalanceTint edits, saturation edits, vibrance edits,
      sharpeningAmount edits, noiseReduction edits, rotation edits, straightenAngle edits,
      crop edits)"

text \<open>
  \<open>selectedFile\<close>, \<open>previewUrl\<close> and \<open>error\<close> belong to the store, \<open>requestIdRef\<close> and
  \<open>localLoading\<close> to the component.  \<open>cleanup\<close> is the run whose cleanup function React
  holds; \<open>timers\<close> are the runs whose timeout is pending; \<open>inflight\<close> the runs awaiting
  \<open>getPreview\<close>.  \<open>requests\<close>, \<open>console\<close> and \<open>revoked\<close> record the calls of \<open>getPreview\<close>,
  \<open>console.error\<close> and \<open>URL.revokeObjectURL\<close>, oldest first.  \<open>applied\<close> records, oldest
  first, each call \<open>setPreviewUrl\<close> made by \<open>loadPreview\<close>, with the \<open>currentRequestId\<close> of
  the run that made it.  \<open>lastDeps\<close> is the dependency array React kept from the last run
  of the effect, \<open>None\<close> before the first.
\<close>

record sched =
  selectedFile :: "ImageFile option"
  previewUrl :: "url option"
  error :: "string option"
  requestIdRef :: nat
  localLoading :: bool
  effects :: "nat \<Rightarrow> closure option"
  cleanup :: "nat option"
  timers :: "nat list"
  inflight :: "nat list"
  requests :: "request list"
  console :: "string list"
  nextUrl :: nat
  revoked :: "url list"
  applied :: "(nat \<times> url option) list"
  lastDeps :: "preview_deps option"

definition init_sched :: "ImageFile option \<Rightarrow> sched" where
  "init_sched f =
     \<lparr> selectedFile = f, previewUrl = None, error = None, requestIdRef = 0, localLoading = False,
       effects = Map.empty, cleanup = None, timers = [], inflight = [], requests = [],
       console = [], nextUrl = 0, revoked = [], applied = [], lastDeps = None \<rparr>"

text \<open>The cleanup function the effect returned: \<open>cancelled = true; clearTimeout(debounce)\<close>.\<close>

definition run_cleanup :: "sched \<Rightarrow> sched" where
  "run_cleanup s =
     (case cleanup s of
        None \<Rightarrow> s
      | Some i \<Rightarrow>
          s\<lparr>effects := (case effects s i of
                           None \<Rightarrow> effects s
                         | Some c \<Rightarrow> (effects s)(i \<mapsto> c\<lparr>c_cancelled := True\<rparr>)),
            timers := removeAll i (timers s),
            cleanup := None\<rparr>)"

text \<open>
  React re-runs the effect when a dependency changed: first the previous cleanup, then the
  body with the values of the new render, at time \<open>t\<close>.
\<close>

definition effect_run :: "nat \<Rightarrow> ImageFile option \<Rightarrow> EditState \<Rightarrow> sched \<Rightarrow> sched" where
  "effect_run t f edits s =
     (let s1 = run_cleanup s in
      case f of
        None \<Rightarrow> s1\<lparr>previewUrl := None\<rparr>
      | Some fl \<Rightarrow>
          let currentRequestId = requestIdRef s1 + 1 in
          s1\<lparr>requestIdRef := currentRequestId,
             effects := (effects s1)(currentRequestId \<mapsto>
               \<lparr>c_file = fl, c_edits = edits, c_previewUrl = previewUrl s1,
                c_cancelled = False, c_deadline = t + 150\<rparr>),
             timers := timers s1 @ [currentRequestId],
             cleanup := Some currentRequestId\<rparr>)"

text \<open>The timeout of run \<open>i\<close> fires: \<open>loadPreview\<close> runs up to its \<open>await\<close>.\<close>

definition timer_fire :: "nat \<Rightarrow> sched \<Rightarrow> sched" where
  "timer_fire i s =
     (if i \<in> set (timers s) then
        (case effects s i of
           None \<Rightarrow> s
         | Some c \<Rightarrow>
             s\<lparr>timers := removeAll i (timers s),
               localLoading := True,
               inflight := inflight s @ [i],
               requests := requests s @
                 [\<lparr>req_time = c_deadline c, req_file = file_id (c_file c),
                   req_edits = c_edits c, req_maxSize = 1600\<rparr>]\<rparr>)
      else s)"

text \<open>
  \<open>getPreview\<close> of run \<open>i\<close> resolves with bytes \<open>b\<close>: the rest of the \<open>try\<close> block, then
  \<open>finally\<close>.
\<close>

definition resolve :: "nat \<Rightarrow> bytes \<Rightarrow> sched \<Rightarrow> sched" where
  "resolve i b s =
     (if i \<in> set (inflight s) then
        (case effects s i of
           None \<Rightarrow> s
         | Some c \<Rightarrow>
             let s1 = s\<lparr>inflight := removeAll i (inflight s)\<rparr> in
             if c_cancelled c \<or> i \<noteq> requestIdRef s then s1
             else
               let u = (nextUrl s, b) in
               s1\<lparr>nextUrl := nextUrl s + 1,
                  revoked := (case c_previewUrl c of
                                None \<Rightarrow> revoked s | Some old \<Rightarrow> revoked s @ [old]),
                  previewUrl := Some u,
                  applied := applied s @ [(i, Some u)],
                  localLoading := False\<rparr>)
      else s)"

text \<open>\<open>getPreview\<close> of run \<open>i\<close> rejects with \<open>e\<close>: the \<open>catch\<close> block, then \<open>finally\<close>.\<close>

definition reject :: "nat \<Rightarrow> string \<Rightarrow> sched \<Rightarrow> sched" where
  "reject i e s =
     (if i \<in> set (inflight s) then
        (case effects s i of
           None \<Rightarrow> s
         | Some c \<Rightarrow>
             let s1 = s\<lparr>inflight := removeAll i (inflight s)\<rparr> in
             if \<not> c_cancelled c \<and> i = requestIdRef s then
               s1\<lparr>console := console s @ [''Preview failed: '' @ e],
                  previewUrl := None,
                  applied := applied s @ [(i, None)],
                  localLoading := False\<rparr>
             else s1)
      else s)"

text \<open>
  A render with the store's file and edit state at time \<open>t\<close>.  React compares each
  dependency with the one it kept, by \<open>Object.is\<close>, and re-runs the effect only if one
  differs.  Numbers and strings are compared by value.  \<open>edits.crop\<close> is an object, compared
  by identity: \<open>newCrop\<close> says that it is an object other than the one of the previous render
  (an object that is the same has the same fields, so otherwise comparing the fields
  decides).
\<close>

definition render :: "nat \<Rightarrow> bool \<Rightarrow> ImageFile option \<Rightarrow> EditState \<Rightarrow> sched \<Rightarrow> sched" where
  "render t newCrop f edits s =
     (if \<not> newCrop \<and> lastDeps s = Some (preview_deps f edits) then s
      else (effect_run t f edits s)\<lparr>lastDeps := Some (preview_deps f edits)\<rparr>)"

text \<open>
  What can change between two renders.  \<open>EditsChanged e\<close>: the selected file's edit state is
  now \<open>e\<close>, its \<open>crop\<close> the same object as before unless its fields differ.  \<open>CropReplaced e\<close>:
  the edit state is now \<open>e\<close> and its \<open>crop\<close>, unless \<open>null\<close>, is a new object (a commit of the
  crop tool makes one each time).  \<open>FileSelected f e\<close>: the store's \<open>setSelectedIndex\<close> selected
  \<open>f\<close>, whose edit state is \<open>e\<close>, and cleared \<open>previewUrl\<close>; files are told apart by their
  \<open>id\<close>.
\<close>

datatype change =
    EditsChanged EditState
  | FileSelected "ImageFile option" EditState
  | CropReplaced EditState

fun apply_change :: "nat \<Rightarrow> change \<Rightarrow> sched \<Rightarrow> sched" where
  "apply_change t (EditsChanged e) s = render t False (selectedFile s) e s"
| "apply_change t (FileSelected f e) s =
     render t False f e (s\<lparr>selectedFile := f, previewUrl := None\<rparr>)"
| "apply_change t (CropReplaced e) s = render t (crop e \<noteq> None) (selectedFile s) e s"

text \<open>The edit state and the file the render reads after a change.\<close>

fun edits_of :: "change \<Rightarrow> EditState" where
  "edits_of (EditsChanged e) = e"
| "edits_of (FileSelected f e) = e"
| "edits_of (CropReplaced e) = e"

fun selected_after :: "ImageFile option \<Rightarrow> change \<Rightarrow> ImageFile option" where
  "selected_after sel (FileSelected f e) = f"
| "selected_after sel c = sel"

fun replaces_crop :: "change \<Rightarrow> bool" where
  "replaces_crop (CropReplaced e) = (crop e \<noteq> None)"
| "replaces_crop c = False"

text \<open>
  A burst of qualifying changes: each one changes a dependency of the effect, given the
  dependencies \<open>d\<close> React kept and the file \<open>sel\<close> selected before it.
\<close>

fun qualifying :: "preview_deps option \<Rightarrow> ImageFile option \<Rightarrow> (nat \<times> change) list \<Rightarrow> bool" where
  "qualifying d sel [] = True"
| "qualifying d sel ((t, c) # cs) =
     ((replaces_crop c \<or> d \<noteq> Some (preview_deps (selected_after sel c) (edits_of c))) \<and>
      qualifying (Some (preview_deps (selected_after sel c) (edits_of c)))
        (selected_after sel c) cs)"

datatype sched_event =
    Change nat change
  | TimerDue nat
  | Resolve nat bytes
  | Reject nat string

fun sched_step :: "sched \<Rightarrow> sched_event \<Rightarrow> sched" where
  "sched_step s (Change t c) = apply_change t c s"
| "sched_step s (TimerDue i) = timer_fire i s"
| "sched_step s (Resolve i b) = resolve i b s"
| "sched_step s (Reject i e) = reject i e s"

definition sched_run :: "sched_event list \<Rightarrow> sched \<Rightarrow> sched" where
  "sched_run evs s = foldl sched_step s evs"

text \<open>An event that stays within the current file selection.\<close>

fun in_context :: "sched_event \<Rightarrow> bool" where
  "in_context (Change t (FileSelected f e)) = False"
| "in_context ev = True"

subsection \<open>Timed runs\<close>

text \<open>
  The event loop with a clock: before a change at time \<open>t\<close> is handled, every pending
  timeout due by \<open>t\<close> has fired, in the order the timeouts were set.
\<close>

definition is_due :: "nat \<Rightarrow> sched \<Rightarrow> nat \<Rightarrow> bool" where
  "is_due t s i = (case effects s i of None \<Rightarrow> False | Some c \<Rightarrow> c_deadline c \<le> t)"

definition fire_due :: "nat \<Rightarrow> sched \<Rightarrow> sched" where
  "fire_due t s = foldl (\<lambda>s' i. timer_fire i s') s (filter (is_due t s) (timers s))"

definition run_changes :: "(nat \<times> change) list \<Rightarrow> sched \<Rightarrow> sched" where
  "run_changes cs s = foldl (\<lambda>s' (t, c). apply_change t c (fire_due t s')) s cs"


section \<open>Compare mode (second effect of \<open>MainPreview\<close>)\<close>

text \<open>
  The variables one run of the effect captures: the render's \<open>beforeUrl\<close> and its own
  \<open>cancelled\<close> flag.  Runs are numbered in the order they start.
\<close>

record before_closure =
  b_beforeUrl :: "url option"
  b_cancelled :: bool

record compare =
  cmp_file :: "ImageFile option"
  compareMode :: CompareMode
  beforeUrl :: "url option"
  cmp_runs :: nat
  cmp_effects :: "nat \<Rightarrow> before_closure option"
  cmp_cleanup :: "nat option"
  cmp_inflight :: "nat list"
  beforeRequests :: "request list"
  cmp_console :: "string list"
  cmp_nextUrl :: nat
  cmp_revoked :: "url list"

definition init_compare :: "ImageFile option \<Rightarrow> compare" where
  "init_compare f =
     \<lparr> cmp_file = f, compareMode = cmp_off, beforeUrl = None, cmp_runs = 0,
       cmp_effects = Map.empty, cmp_cleanup = None, cmp_inflight = [], beforeRequests = [],
       cmp_console = [], cmp_nextUrl = 0, cmp_revoked = [] \<rparr>"

definition compare_cleanup :: "compare \<Rightarrow> compare" where
  "compare_cleanup s =
     (case cmp_cleanup s of
        None \<Rightarrow> s
      | Some k \<Rightarrow>
          s\<lparr>cmp_effects := (case cmp_effects s k of
                               None \<Rightarrow> cmp_effects s
                             | Some c \<Rightarrow> (cmp_effects s)(k \<mapsto> c\<lparr>b_cancelled := True\<rparr>)),
            cmp_cleanup := None\<rparr>)"

text \<open>
  The effect with dependencies \<open>[file?.id, compareMode]\<close>, at time \<open>t\<close>: the previous cleanup,
  then the body.  With a file and a mode other than \<open>off\<close> it calls \<open>loadBefore()\<close> at once,
  which calls \<open>getPreview(file.id, DEFAULT_EDIT_STATE, 1600)\<close>; nothing in the body looks at
  \<open>beforeUrl\<close> before the call.
\<close>

definition compare_effect :: "nat \<Rightarrow> compare \<Rightarrow> compare" where
  "compare_effect t s =
     (let s1 = compare_cleanup s in
      case cmp_file s1 of
        None \<Rightarrow>
          (case beforeUrl s1 of
             None \<Rightarrow> s1
           | Some u \<Rightarrow> s1\<lparr>cmp_revoked := cmp_revoked s1 @ [u], beforeUrl := None\<rparr>)
      | Some f \<Rightarrow>
          if compareMode s1 = cmp_off then
            (case beforeUrl s1 of
               None \<Rightarrow> s1
             | Some u \<Rightarrow> s1\<lparr>cmp_revoked := cmp_revoked s1 @ [u], beforeUrl := None\<rparr>)
          else
            let k = cmp_runs s1 + 1 in
            s1\<lparr>cmp_runs := k,
               cmp_effects := (cmp_effects s1)(k \<mapsto>
                 \<lparr>b_beforeUrl = beforeUrl s1, b_cancelled = False\<rparr>),
               cmp_cleanup := Some k,
               cmp_inflight := cmp_inflight s1 @ [k],
               beforeRequests := beforeRequests s1 @
                 [\<lparr>req_time = t, req_file = file_id f,
                   req_edits = DEFAULT_EDIT_STATE, req_maxSize = 1600\<rparr>]\<rparr>)"

text \<open>The compare button: \<open>off\<close>, \<open>split\<close>, \<open>toggle\<close>, and round again.\<close>

fun next_mode :: "CompareMode \<Rightarrow> CompareMode" where
  "next_mode cmp_off = cmp_split"
| "next_mode cmp_split = cmp_toggle"
| "next_mode cmp_toggle = cmp_off"

definition before_resolve :: "nat \<Rightarrow> bytes \<Rightarrow> compare \<Rightarrow> compare" where
  "before_resolve k b s =
     (if k \<in> set (cmp_inflight s) then
        (case cmp_effects s k of
           None \<Rightarrow> s
         | Some c \<Rightarrow>
             let s1 = s\<lparr>cmp_inflight := removeAll k (cmp_inflight s)\<rparr> in
             if b_cancelled c then s1
             else
               let u = (cmp_nextUrl s, b) in
               s1\<lparr>cmp_nextUrl := cmp_nextUrl s + 1,
                  cmp_revoked := (case b_beforeUrl c of
                                    None \<Rightarrow> cmp_revoked s
                                  | Some old \<Rightarrow> cmp_revoked s @ [old]),
                  beforeUrl := Some u\<rparr>)
      else s)"

definition before_reject :: "nat \<Rightarrow> string \<Rightarrow> compare \<Rightarrow> compare" where
  "before_reject k e s =
     (if k \<in> set (cmp_inflight s) then
        s\<lparr>cmp_inflight := removeAll k (cmp_inflight s),
          cmp_console := cmp_console s @ [''Before preview failed: '' @ e]\<rparr>
      else s)"

text \<open>
  Events within one file selection: a click on the compare button at time \<open>t\<close> (the mode
  changes, so the effect re-runs), and the two outcomes of a \<open>before\<close> request.
\<close>

datatype compare_event =
    CompareClick nat
  | BeforeResolve nat bytes
  | BeforeReject nat string

fun compare_step :: "compare \<Rightarrow> compare_event \<Rightarrow> compare" where
  "compare_step s (CompareClick t) =
     compare_effect t (s\<lparr>compareMode := next_mode (compareMode s)\<rparr>)"
| "compare_step s (BeforeResolve k b) = before_resolve k b s"
| "compare_step s (BeforeReject k e) = before_reject k e s"

definition compare_run :: "compare_event list \<Rightarrow> compare \<Rightarrow> compare" where
  "compare_run evs s = foldl compare_step s evs"

definition clicks :: "compare_event list \<Rightarrow> nat" where
  "clicks evs = length (filter (\<lambda>e. case e of CompareClick t \<Rightarrow> True | _ \<Rightarrow> False) evs)"

section \<open>Vocabulary of the properties\<close>

text \<open>The zoom range.\<close>

definition zoom_ok :: "view \<Rightarrow> bool" where
  "zoom_ok s = (1/2 \<le> zoomLevel s \<and> zoomLevel s \<le> 5)"

text \<open>A drag path: pointer moves, each with the container's bounds at that moment.\<close>

definition pointer_moves :: "(dom_rect \<times> real \<times> real) list \<Rightarrow> ui_event list" where
  "pointer_moves ps = map (\<lambda>(r, cx, cy). MouseMove (Some r) cx cy) ps"

text \<open>
  The state during a resize drag of corner \<open>m\<close> with aspect setting \<open>a\<close>: crop mode on, a
  drag in progress in mode \<open>m\<close>, and a rectangle present.
\<close>

definition resizing :: "drag_mode \<Rightarrow> real option \<Rightarrow> view \<Rightarrow> bool" where
  "resizing m a s =
     (cropMode s \<and> isDraggingCrop s \<and> cropDragMode s = Some m \<and> is_resize m \<and>
      aspectRatio s = a \<and> cropRect s \<noteq> None)"

text \<open>Concrete inputs: a container at the origin, a photograph and its image element.\<close>

definition viewport :: dom_rect where
  "viewport = \<lparr>dr_left = 0, dr_top = 0, dr_width = 800, dr_height = 600\<rparr>"

definition photo :: ImageFile where
  "photo =
     \<lparr>file_id = ''abc-123'', path = ''/photos/a.jpg'', filename = ''a.jpg'',
      extension = ''jpg'', fileSize = 1000, modifiedAt = ''2025-01-27'', isRaw = False,
      dimensions = Some (3200, 2400)\<rparr>"

definition photo_img :: img_element where
  "photo_img = \<lparr>boundingClientRect = viewport, naturalWidth = 3200, naturalHeight = 2400\<rparr>"

text \<open>
  The invariant of the scheduler within one file selection: no run is numbered above
  \<open>requestIdRef\<close>; a run is at most one of pending, in flight and applied; the applied runs
  are in increasing order; and the store's \<open>previewUrl\<close> is what the last of them set.
\<close>

definition sched_inv :: "sched \<Rightarrow> bool" where
  "sched_inv s =
     ((\<forall>i\<in>set (timers s). i \<le> requestIdRef s) \<and>
      (\<forall>i\<in>set (inflight s). i \<le> requestIdRef s \<and> i \<notin> set (timers s)) \<and>
      (\<forall>i\<in>fst ` set (applied s).
          i \<le> requestIdRef s \<and> i \<notin> set (timers s) \<and> i \<notin> set (inflight s)) \<and>
      sorted_wrt (<) (map fst (applied s)) \<and>
      previewUrl s = (if applied s = [] then None else snd (last (applied s))) \<and>
      selectedFile s \<noteq> None)"

text \<open>
  An entry of \<open>applied\<close> comes from a response among the events: a URL for the bytes of a
  \<open>Resolve\<close> of that run, or \<open>null\<close> for a \<open>Reject\<close> of that run.
\<close>

fun is_reject_of :: "nat \<Rightarrow> sched_event \<Rightarrow> bool" where
  "is_reject_of i (Reject j e) = (j = i)"
| "is_reject_of i ev = False"

definition from_response :: "sched_event list \<Rightarrow> nat \<times> url option \<Rightarrow> bool" where
  "from_response evs a =
     (case snd a of
        Some u \<Rightarrow> Resolve (fst a) (snd u) \<in> set evs
      | None \<Rightarrow> list_ex (is_reject_of (fst a)) evs)"



text \<open>
  What the interface shows of the scheduler's state: the image or its placeholder
  (\<open>previewUrl\<close>), the spinner (\<open>localLoading\<close>) and the application's error banner (\<open>error\<close>).
\<close>

definition presented :: "sched \<Rightarrow> url option \<times> bool \<times> string option" where
  "presented s = (previewUrl s, localLoading s, error s)"

text \<open>A \<open>before\<close> request without its time: file, edit state and size.\<close>

definition req_key :: "request \<Rightarrow> string \<times> EditState \<times> nat" where
  "req_key r = (req_file r, req_edits r, req_maxSize r)"

text \<open>
  The invariant of compare mode after \<open>n\<close> clicks of the button with file \<open>f\<close> selected:
  the mode is \<open>n\<close> steps round the cycle, and one \<open>before\<close> request for \<open>f\<close> with the
  default edit state has been issued for each click that did not land on \<open>off\<close>.
\<close>

definition cmp_inv :: "ImageFile \<Rightarrow> nat \<Rightarrow> compare \<Rightarrow> bool" where
  "cmp_inv f n s =
     (cmp_file s = Some f \<and> compareMode s = (next_mode ^^ n) cmp_off \<and>
      map req_key (beforeRequests s) =
        replicate (n - n div 3) (file_id f, DEFAULT_EDIT_STATE, 1600))"

text \<open>Two edit states that differ in a dependency of the preview effect.\<close>

definition brighter :: EditState where
  "brighter = DEFAULT_EDIT_STATE\<lparr>exposure := 1\<rparr>"

definition punchier :: EditState where
  "punchier = DEFAULT_EDIT_STATE\<lparr>exposure := 1, contrast := 20\<rparr>"

section \<open>Zoom\<close>

lemma zoomLevel_handleMouseDown: "zoomLevel (handleMouseDown c x y s) = zoomLevel s"
  by (simp add: handleMouseDown_def start_create_def start_drag_def Let_def
      split: option.splits)

lemma zoomLevel_handleMouseMove: "zoomLevel (handleMouseMove c x y s) = zoomLevel s"
  by (simp add: handleMouseMove_def Let_def split: option.splits drag_mode.splits)

lemma zoomLevel_handleSplitMouseMove: "zoomLevel (handleSplitMouseMove c x s) = zoomLevel s"
  by (simp add: handleSplitMouseMove_def Let_def split: option.splits)

lemma zoomLevel_handleMouseUp: "zoomLevel (handleMouseUp s) = zoomLevel s"
  by (simp add: handleMouseUp_def Let_def)

lemma zoomLevel_applyCrop: "zoomLevel (applyCrop i c f s) = zoomLevel s"
  by (simp add: applyCrop_def updateEdit_crop_def split: option.splits)

lemma zoom_ok_step: "zoom_ok s \<Longrightarrow> zoom_ok (ui_step s e)"
  by (cases e)
     (auto simp: zoom_ok_def handleWheel_def handleDoubleClick_def resetZoom_def
        zoomOutClick_def zoomInClick_def zoomLevel_handleMouseDown zoomLevel_handleMouseMove
        zoomLevel_handleSplitMouseMove zoomLevel_handleMouseUp zoomLevel_applyCrop
        cancelCrop_def handleSplitMouseUp_def Let_def)

lemma zoom_ok_run: "zoom_ok s \<Longrightarrow> zoom_ok (ui_run evs s)"
  unfolding ui_run_def by (induction evs arbitrary: s) (auto simp: zoom_ok_step)

lemma zoom_ok_init: "zoom_ok init_view"
  by (simp add: zoom_ok_def init_view_def)

text \<open>
  C7.  After any sequence of events from the initial state -- wheel steps, the zoom-in and
  zoom-out buttons, double-clicks, resets, and every other handler in between -- the zoom
  level lies in [0.5, 5].  Outside crop mode a wheel step sets the zoom level to the product
  with 0.9 (\<open>deltaY > 0\<close>) or 1.1, clamped to [0.5, 5].  The zoom-out button clamps only from
  below and the zoom-in button only from above, so the range is an invariant of the reachable
  states rather than a property of each handler on an arbitrary number.
\<close>

theorem zoomLevel_in_range:
  "1/2 \<le> zoomLevel (ui_run evs init_view) \<and> zoomLevel (ui_run evs init_view) \<le> 5 \<and>
   (\<not> cropMode s \<longrightarrow>
      zoomLevel (ui_step s (Wheel deltaY)) =
        max (1/2) (min 5 (zoomLevel s * (if deltaY > 0 then 9/10 else 11/10))))"
proof -
  have "zoom_ok (ui_run evs init_view)"
    by (rule zoom_ok_run) (rule zoom_ok_init)
  then show ?thesis
    by (simp add: zoom_ok_def handleWheel_def Let_def)
qed

theorem zoomLevel_in_range_witness:
  "zoomLevel (ui_run [Wheel (-1), ZoomInClick, DoubleClick, ZoomOutClick] init_view) = 3/4 \<and>
   zoomLevel (ui_step (init_view\<lparr>zoomLevel := 5\<rparr>) (Wheel (-1))) = 5 \<and>
   zoomLevel (ui_step (init_view\<lparr>zoomLevel := 1/2\<rparr>) (Wheel 1)) = 1/2"
proof -
  have a: "\<not> cropMode (init_view\<lparr>zoomLevel := 5\<rparr>)"
    and b: "\<not> cropMode (init_view\<lparr>zoomLevel := 1/2\<rparr>)"
    by (simp_all add: init_view_def)
  have "zoomLevel (ui_run [Wheel (-1), ZoomInClick, DoubleClick, ZoomOutClick] init_view) = 3/4"
    by (simp add: ui_run_def init_view_def handleWheel_def zoomInClick_def
        handleDoubleClick_def zoomOutClick_def Let_def)
  moreover have "zoomLevel (ui_step (init_view\<lparr>zoomLevel := 5\<rparr>) (Wheel (-1))) = 5"
    using zoomLevel_in_range [of "[]" "init_view\<lparr>zoomLevel := 5\<rparr>" "-1"] a
    by (simp add: init_view_def)
  moreover have "zoomLevel (ui_step (init_view\<lparr>zoomLevel := 1/2\<rparr>) (Wheel 1)) = 1/2"
    using zoomLevel_in_range [of "[]" "init_view\<lparr>zoomLevel := 1/2\<rparr>" 1] b
    by (simp add: init_view_def)
  ultimately show ?thesis by simp
qed

text \<open>
  C10.  While crop mode is active, a wheel event and a double-click leave the zoom level and
  the pan offset unchanged; they leave the whole state unchanged.
\<close>

theorem crop_mode_suppresses_zoom:
  assumes "cropMode s"
  shows "zoomLevel (ui_step s (Wheel deltaY)) = zoomLevel s \<and>
         panOffset (ui_step s (Wheel deltaY)) = panOffset s \<and>
         zoomLevel (ui_step s DoubleClick) = zoomLevel s \<and>
         panOffset (ui_step s DoubleClick) = panOffset s \<and>
         ui_step s (Wheel deltaY) = s \<and> ui_step s DoubleClick = s"
  using assms by (simp add: handleWheel_def handleDoubleClick_def)

theorem crop_mode_suppresses_zoom_witness:
  "cropMode (ui_run [ZoomInClick, SetCropMode True] init_view) \<and>
   zoomLevel (ui_run [ZoomInClick, SetCropMode True, Wheel (-120), DoubleClick] init_view) = 5/4 \<and>
   panOffset (ui_run [ZoomInClick, SetCropMode True, Wheel (-120), DoubleClick] init_view) =
     \<lparr>pt_x = 0, pt_y = 0\<rparr>"
proof -
  let ?s = "ui_run [ZoomInClick, SetCropMode True] init_view"
  have c: "cropMode ?s"
    by (simp add: ui_run_def init_view_def zoomInClick_def)
  have run: "ui_run [ZoomInClick, SetCropMode True, Wheel (-120), DoubleClick] init_view =
             ui_step (ui_step ?s (Wheel (-120))) DoubleClick"
    by (simp add: ui_run_def)
  have w: "ui_step ?s (Wheel (-120)) = ?s"
    using crop_mode_suppresses_zoom [OF c, of "-120"] by simp
  have d: "ui_step ?s DoubleClick = ?s"
    using crop_mode_suppresses_zoom [OF c, of 0] by simp
  have z: "zoomLevel ?s = 5/4" and p: "panOffset ?s = \<lparr>pt_x = 0, pt_y = 0\<rparr>"
    by (simp_all add: ui_run_def init_view_def zoomInClick_def)
  show ?thesis
    unfolding run w d using c z p by simp
qed

section \<open>The crop tool\<close>

lemmas ui_eval =
  ui_run_def init_view_def handleMouseDown_def start_create_def start_drag_def
  handleMouseMove_def create_rect_def handleSplitMouseMove_def handleMouseUp_def
  handleSplitMouseUp_def hit_existing_def resize_rect_def is_resize_def locked_def Let_def
  viewport_def applyCrop_def crop_literal_def updateEdit_crop_def photo_def photo_img_def

text \<open>
  C4.  Crop mode entered, pointer down at (100,100) and dragged to (300,250) with the aspect
  ratio free: the rectangle is \<open>{x:100, y:100, width:200, height:150}\<close>.  Committing it with
  the image on screen at \<open>{x:0, y:0, w:800, h:600}\<close> and natural size 3200 by 2400 writes
  \<open>{x:400, y:400, width:800, height:600}\<close>, in image pixels, into the file's \<open>crop\<close>, clears
  the rectangle and leaves crop mode.
\<close>

theorem scenario_B_crop_commit:
  "cropRect (ui_run [SetCropMode True, MouseDown (Some viewport) 100 100,
                     MouseMove (Some viewport) 300 250, MouseUp] init_view) =
     Some \<lparr>rect_x = 100, rect_y = 100, rect_width = 200, rect_height = 150\<rparr> \<and>
   map_option crop
     (editStates (ui_run [SetCropMode True, MouseDown (Some viewport) 100 100,
                          MouseMove (Some viewport) 300 250, MouseUp,
                          ApplyClick (Some photo_img) (Some viewport) (Some photo)] init_view)
        (file_id photo)) =
     Some (Some [(''x'', 400), (''y'', 400), (''width'', 800), (''height'', 600)]) \<and>
   cropRect (ui_run [SetCropMode True, MouseDown (Some viewport) 100 100,
                     MouseMove (Some viewport) 300 250, MouseUp,
                     ApplyClick (Some photo_img) (Some viewport) (Some photo)] init_view) = None \<and>
   cropMode (ui_run [SetCropMode True, MouseDown (Some viewport) 100 100,
                     MouseMove (Some viewport) 300 250, MouseUp,
                     ApplyClick (Some photo_img) (Some viewport) (Some photo)] init_view) = False"
  by (simp add: ui_eval)

text \<open>
  C3.  The claim is that a commit writes a normalized rectangle with fields \<open>top\<close>, \<open>left\<close>,
  \<open>bottom\<close>, \<open>right\<close> in [0,1], as \<open>interface CropRect\<close> declares.  The object \<open>applyCrop\<close>
  writes has the fields \<open>x\<close>, \<open>y\<close>, \<open>width\<close>, \<open>height\<close> in image pixels: for the rectangle
  \<open>{x:100, y:100, width:200, height:150}\<close> on an 800 by 600 image of natural size 3200 by 2400
  it is \<open>{x:400, y:400, width:800, height:600}\<close>, which has no field \<open>top\<close> and no value
  within [0,1].
\<close>

theorem applyCrop_writes_pixels_not_CropRect:
  "crop_literal \<lparr>rect_x = 100, rect_y = 100, rect_width = 200, rect_height = 150\<rparr>
     photo_img viewport = [(''x'', 400), (''y'', 400), (''width'', 800), (''height'', 600)] \<and>
   \<not> normalized_CropRect
     (crop_literal \<lparr>rect_x = 100, rect_y = 100, rect_width = 200, rect_height = 150\<rparr>
        photo_img viewport) \<and>
   map_of (crop_literal \<lparr>rect_x = 100, rect_y = 100, rect_width = 200, rect_height = 150\<rparr>
        photo_img viewport) ''top'' = None"
  by (simp add: crop_literal_def photo_img_def viewport_def normalized_CropRect_def
      unit_field_def Let_def)

subsection \<open>Resizing\<close>

lemma cropRect_handleSplitMouseMove: "cropRect (handleSplitMouseMove c cx s) = cropRect s"
  by (simp add: handleSplitMouseMove_def Let_def split: option.splits)

lemma handleMouseMove_resizing:
  assumes "resizing m a s"
  shows "handleMouseMove (Some r) cx cy s =
     s\<lparr>cropRect :=
         Some (resize_rect m a (the (cropRect s)) (cx - dr_left r) (cy - dr_top r))\<rparr>"
  using assms
  by (cases m) (auto simp: resizing_def is_resize_def handleMouseMove_def Let_def)

lemma cropRect_move_resizing:
  assumes "resizing m a s"
  shows "cropRect (ui_step s (MouseMove (Some r) cx cy)) =
     Some (resize_rect m a (the (cropRect s)) (cx - dr_left r) (cy - dr_top r))"
  using assms by (simp add: cropRect_handleSplitMouseMove handleMouseMove_resizing)

lemma resizing_step:
  "resizing m a s \<Longrightarrow> resizing m a (ui_step s (MouseMove (Some r) cx cy))"
  by (simp add: handleMouseMove_resizing)
     (simp add: resizing_def handleSplitMouseMove_def Let_def)

lemma resizing_run: "resizing m a s \<Longrightarrow> resizing m a (ui_run (pointer_moves ps) s)"
  unfolding ui_run_def pointer_moves_def
  by (induction ps arbitrary: s) (auto simp: resizing_step simp del: ui_step.simps)

lemma ui_run_moves_snoc:
  "ui_run (pointer_moves (ps @ [(r, cx, cy)])) s =
   ui_step (ui_run (pointer_moves ps) s) (MouseMove (Some r) cx cy)"
  by (simp add: ui_run_def pointer_moves_def)

text \<open>After a non-empty drag path the rectangle is the result of a resize step.\<close>

lemma cropRect_after_moves:
  assumes "resizing m a s" and "ps \<noteq> []"
  shows "\<exists>c x y. cropRect (ui_run (pointer_moves ps) s) = Some (resize_rect m a c x y)"
proof -
  obtain qs p where ps: "ps = qs @ [p]"
    using assms(2) by (metis rev_exhaust)
  obtain r cx cy where p: "p = (r, cx, cy)"
    by (cases p)
  have "resizing m a (ui_run (pointer_moves qs) s)"
    using assms(1) by (rule resizing_run)
  then show ?thesis
    unfolding ps p ui_run_moves_snoc
    by (simp add: cropRect_move_resizing del: ui_step.simps) blast
qed

lemma resize_width: "is_resize m \<Longrightarrow> 20 \<le> rect_width (resize_rect m a c x y)"
  by (auto simp: is_resize_def resize_rect_def Let_def)

lemma resize_height_free:
  "is_resize m \<Longrightarrow> \<not> locked a \<Longrightarrow> 20 \<le> rect_height (resize_rect m a c x y)"
  by (auto simp: is_resize_def resize_rect_def Let_def)

lemma resize_height_locked:
  "is_resize m \<Longrightarrow> locked a \<Longrightarrow>
   rect_height (resize_rect m a c x y) = rect_width (resize_rect m a c x y) / the a"
  by (auto simp: is_resize_def resize_rect_def Let_def)

lemma cropRect_mouseUp_resizing: "resizing m a s \<Longrightarrow> cropRect (ui_step s MouseUp) = cropRect s"
  by (auto simp: resizing_def is_resize_def handleMouseUp_def handleSplitMouseUp_def Let_def)

text \<open>
  C8, as the code has it.  During a resize drag of any corner, after each pointer move the
  width of the rectangle is at least 20px.  With the aspect ratio free the height is at least
  20px as well.  With the aspect ratio locked to \<open>r\<close> the height is \<open>width / r\<close>, with no
  floor of its own: it is at least 20px whenever \<open>0 < r \<le> 1\<close>.
\<close>

theorem resize_floor:
  assumes "resizing m a s" and "ps \<noteq> []"
  shows "\<exists>c. cropRect (ui_run (pointer_moves ps) s) = Some c \<and>
             20 \<le> rect_width c \<and>
             (\<not> locked a \<longrightarrow> 20 \<le> rect_height c) \<and>
             (\<forall>r. a = Some r \<and> r \<noteq> 0 \<longrightarrow> rect_height c = rect_width c / r) \<and>
             (\<forall>r. a = Some r \<and> 0 < r \<and> r \<le> 1 \<longrightarrow> 20 \<le> rect_height c)"
proof -
  have m: "is_resize m"
    using assms(1) by (simp add: resizing_def)
  obtain c0 x y where c: "cropRect (ui_run (pointer_moves ps) s) = Some (resize_rect m a c0 x y)"
    using cropRect_after_moves [OF assms] by blast
  let ?c = "resize_rect m a c0 x y"
  have w: "20 \<le> rect_width ?c"
    using m by (rule resize_width)
  have free: "\<not> locked a \<Longrightarrow> 20 \<le> rect_height ?c"
    using m by (rule resize_height_free)
  have lock: "rect_height ?c = rect_width ?c / r" if "a = Some r" "r \<noteq> 0" for r
    using resize_height_locked [OF m, of a c0 x y] that by (simp add: locked_def)
  have tall: "20 \<le> rect_height ?c" if "a = Some r" "0 < r" "r \<le> 1" for r
  proof -
    have "rect_height ?c = rect_width ?c / r"
      using lock that by simp
    moreover have "rect_width ?c \<le> rect_width ?c / r"
      using that w by (simp add: le_divide_eq mult_left_le)
    ultimately show ?thesis
      using w by linarith
  qed
  show ?thesis
    using c w free lock tall by auto
qed

text \<open>
  A drag of the south-east corner of a 200 by 150 rectangle, free: the pointer goes far inside
  the rectangle, and both dimensions stop at 20px.
\<close>

theorem resize_floor_witness:
  "resizing resize_se None
     (ui_run [SetCropMode True, MouseDown (Some viewport) 100 100,
              MouseMove (Some viewport) 300 250, MouseUp,
              MouseDown (Some viewport) 300 250] init_view) \<and>
   cropRect (ui_run (pointer_moves [(viewport, 110, 105)])
     (ui_run [SetCropMode True, MouseDown (Some viewport) 100 100,
              MouseMove (Some viewport) 300 250, MouseUp,
              MouseDown (Some viewport) 300 250] init_view)) =
     Some \<lparr>rect_x = 100, rect_y = 100, rect_width = 20, rect_height = 20\<rparr>"
proof -
  let ?s = "ui_run [SetCropMode True, MouseDown (Some viewport) 100 100,
              MouseMove (Some viewport) 300 250, MouseUp,
              MouseDown (Some viewport) 300 250] init_view"
  have r: "resizing resize_se None ?s"
    by (simp add: resizing_def ui_eval)
  have ne: "[(viewport, 110::real, 105::real)] \<noteq> []"
    by simp
  have e: "cropRect (ui_run (pointer_moves [(viewport, 110, 105)]) ?s) =
        Some \<lparr>rect_x = 100, rect_y = 100, rect_width = 20, rect_height = 20\<rparr>"
    by (simp add: pointer_moves_def ui_eval)
  from resize_floor [OF r ne] e r show ?thesis
    by simp
qed

text \<open>
  C8 as stated fails.  Aspect ratio locked to 16:9 (one of the selectable ratios), a rectangle of 200 by 112.5 created by a
  drag, then its south-east corner dragged to (110,110): the width stops at 20px and the
  height becomes 20 / (16/9) = 11.25px.
\<close>

theorem resize_height_below_floor:
  "(''16:9'', Some (16/9)) \<in> set ASPECT_RATIOS \<and>
   resizing resize_se (Some (16/9))
     (ui_run [SetCropMode True, AspectClick (Some (16/9)), MouseDown (Some viewport) 100 100,
              MouseMove (Some viewport) 300 250, MouseUp,
              MouseDown (Some viewport) 300 (425/2)] init_view) \<and>
   map_option rect_height
     (cropRect (ui_run [SetCropMode True, AspectClick (Some (16/9)),
                        MouseDown (Some viewport) 100 100, MouseMove (Some viewport) 300 250,
                        MouseUp, MouseDown (Some viewport) 300 (425/2),
                        MouseMove (Some viewport) 110 110] init_view)) = Some (45/4) \<and>
   (45/4 :: real) < 20"
  by (simp add: resizing_def ASPECT_RATIOS_def ui_eval)

text \<open>
  C9.  During a resize drag of the south-east corner with the aspect ratio locked to \<open>r\<close>,
  after every pointer move of any drag path the rectangle has \<open>height = width / r\<close>; the
  pointer-up that ends the drag keeps that rectangle, which is the one a commit then reads.
  Over the reals the equation is exact.
\<close>

theorem resize_se_keeps_ratio:
  assumes "resizing resize_se (Some r) s" and "r \<noteq> 0" and "ps \<noteq> []"
  shows "\<exists>c. cropRect (ui_run (pointer_moves ps) s) = Some c \<and>
             rect_height c = rect_width c / r \<and>
             cropRect (ui_step (ui_run (pointer_moves ps) s) MouseUp) = Some c"
proof -
  have m: "is_resize resize_se"
    by (simp add: is_resize_def)
  have l: "locked (Some r)"
    using assms(2) by (simp add: locked_def)
  obtain c0 x y where
    c: "cropRect (ui_run (pointer_moves ps) s) = Some (resize_rect resize_se (Some r) c0 x y)"
    using cropRect_after_moves [OF assms(1,3)] by blast
  have "resizing resize_se (Some r) (ui_run (pointer_moves ps) s)"
    using assms(1) by (rule resizing_run)
  then have up: "cropRect (ui_step (ui_run (pointer_moves ps) s) MouseUp) =
                 cropRect (ui_run (pointer_moves ps) s)"
    by (rule cropRect_mouseUp_resizing)
  show ?thesis
    using c up resize_height_locked [OF m l, of c0 x y] by simp
qed

theorem resize_se_keeps_ratio_witness:
  "resizing resize_se (Some (3/2))
     (ui_run [SetCropMode True, AspectClick (Some (3/2)), MouseDown (Some viewport) 100 100,
              MouseMove (Some viewport) 400 250, MouseUp,
              MouseDown (Some viewport) 400 300] init_view) \<and>
   cropRect (ui_run (pointer_moves [(viewport, 310, 500), (viewport, 250, 120)])
     (ui_run [SetCropMode True, AspectClick (Some (3/2)), MouseDown (Some viewport) 100 100,
              MouseMove (Some viewport) 400 250, MouseUp,
              MouseDown (Some viewport) 400 300] init_view)) =
     Some \<lparr>rect_x = 100, rect_y = 100, rect_width = 150, rect_height = 100\<rparr>"
proof -
  let ?s = "ui_run [SetCropMode True, AspectClick (Some (3/2)),
              MouseDown (Some viewport) 100 100, MouseMove (Some viewport) 400 250, MouseUp,
              MouseDown (Some viewport) 400 300] init_view"
  let ?ps = "[(viewport, 310::real, 500::real), (viewport, 250, 120)]"
  have r: "resizing resize_se (Some (3/2)) ?s"
    by (simp add: resizing_def ui_eval)
  have nz: "(3/2 :: real) \<noteq> 0" and ne: "?ps \<noteq> []"
    by simp_all
  have e: "cropRect (ui_run (pointer_moves ?ps) ?s) =
        Some \<lparr>rect_x = 100, rect_y = 100, rect_width = 150, rect_height = 100\<rparr>"
    by (simp add: pointer_moves_def ui_eval)
  from resize_se_keeps_ratio [OF r nz ne] e r show ?thesis
    by simp
qed

section \<open>The preview scheduler\<close>

subsection \<open>The invariant\<close>

lemma sched_inv_init: "sched_inv (init_sched (Some f))"
  by (simp add: sched_inv_def init_sched_def)

lemma run_cleanup_fields:
  "requestIdRef (run_cleanup s) = requestIdRef s"
  "set (timers (run_cleanup s)) \<subseteq> set (timers s)"
  "inflight (run_cleanup s) = inflight s"
  "applied (run_cleanup s) = applied s"
  "previewUrl (run_cleanup s) = previewUrl s"
  "selectedFile (run_cleanup s) = selectedFile s"
  by (auto simp: run_cleanup_def split: option.splits)

lemma sched_inv_effect_run:
  assumes "sched_inv s"
  shows "sched_inv (effect_run t (Some f) e s)"
proof -
  have "sched_inv (run_cleanup s)"
    using assms run_cleanup_fields(2) [of s]
    unfolding sched_inv_def run_cleanup_fields by blast
  then show ?thesis
    by (fastforce simp: sched_inv_def effect_run_def Let_def)
qed

lemma sched_inv_timer_fire: "sched_inv s \<Longrightarrow> sched_inv (timer_fire i s)"
  by (auto simp: sched_inv_def timer_fire_def split: option.splits)

text \<open>
  A run that is applied was in flight and is the latest; the runs applied before it are not
  in flight, hence strictly older.
\<close>

lemma sched_inv_resolve: "sched_inv s \<Longrightarrow> sched_inv (resolve i b s)"
  apply (auto simp: sched_inv_def resolve_def Let_def sorted_wrt_append split: option.splits)
  apply (metis fst_conv le_neq_implies_less)
  done

lemma sched_inv_reject: "sched_inv s \<Longrightarrow> sched_inv (reject i e s)"
  apply (auto simp: sched_inv_def reject_def Let_def sorted_wrt_append split: option.splits)
  apply (metis fst_conv le_neq_implies_less)
  done

lemma sched_inv_lastDeps: "sched_inv (s\<lparr>lastDeps := d\<rparr>) = sched_inv s"
  by (simp add: sched_inv_def)

lemma sched_inv_render:
  assumes "sched_inv s"
  shows "sched_inv (render t n (selectedFile s) e s)"
proof -
  obtain f where "selectedFile s = Some f"
    using assms by (auto simp: sched_inv_def)
  then show ?thesis
    using assms by (simp add: render_def sched_inv_lastDeps sched_inv_effect_run)
qed

lemma sched_inv_step:
  assumes "sched_inv s" and "in_context ev"
  shows "sched_inv (sched_step s ev)"
proof (cases ev)
  case (Change t c)
  with assms(2) have "c = EditsChanged (edits_of c) \<or> c = CropReplaced (edits_of c)"
    by (cases c) auto
  then show ?thesis
    using Change sched_inv_render [OF assms(1)] by (metis apply_change.simps(1,3) sched_step.simps(1))
qed (use assms(1) in \<open>simp_all add: sched_inv_timer_fire sched_inv_resolve sched_inv_reject\<close>)

lemma sched_run_snoc: "sched_run (evs @ [ev]) s = sched_step (sched_run evs s) ev"
  by (simp add: sched_run_def)

lemma sched_inv_run:
  "sched_inv s \<Longrightarrow> list_all in_context evs \<Longrightarrow> sched_inv (sched_run evs s)"
  by (induction evs rule: rev_induct) (simp_all add: sched_run_def sched_inv_step)

subsection \<open>Where applied entries come from\<close>

lemma is_reject_of_iff: "is_reject_of i ev \<longleftrightarrow> (\<exists>e. ev = Reject i e)"
  by (cases ev) auto

lemma applied_step:
  "a \<in> set (applied (sched_step s ev)) \<Longrightarrow> a \<in> set (applied s) \<or> from_response [ev] a"
proof (cases ev)
  case (Change t c)
  assume "a \<in> set (applied (sched_step s ev))"
  then show ?thesis
    using Change
    by (cases c)
       (auto simp: render_def effect_run_def run_cleanup_def Let_def
          split: option.splits if_splits)
next
  case (TimerDue i)
  assume "a \<in> set (applied (sched_step s ev))"
  then show ?thesis
    using TimerDue by (auto simp: timer_fire_def split: option.splits if_splits)
next
  case (Resolve i b)
  assume "a \<in> set (applied (sched_step s ev))"
  then show ?thesis
    using Resolve
    by (auto simp: resolve_def from_response_def Let_def split: option.splits if_splits)
next
  case (Reject i e)
  assume "a \<in> set (applied (sched_step s ev))"
  then show ?thesis
    using Reject
    by (auto simp: reject_def from_response_def Let_def split: option.splits if_splits)
qed

lemma from_response_mono:
  "from_response evs a \<Longrightarrow> set evs \<subseteq> set evs' \<Longrightarrow> from_response evs' a"
  by (auto simp: from_response_def list_ex_iff split: option.splits)

lemma applied_run:
  "a \<in> set (applied (sched_run evs s)) \<Longrightarrow> a \<in> set (applied s) \<or> from_response evs a"
proof (induction evs arbitrary: a rule: rev_induct)
  case Nil
  then show ?case by (simp add: sched_run_def)
next
  case (snoc ev evs)
  from snoc.prems have "a \<in> set (applied (sched_run evs s)) \<or> from_response [ev] a"
    unfolding sched_run_snoc by (rule applied_step)
  then show ?case
    using snoc.IH [of a] from_response_mono [of evs a "evs @ [ev]"]
      from_response_mono [of "[ev]" a "evs @ [ev]"]
    by auto
qed

subsection \<open>Stale responses\<close>

lemma stale_resolve:
  assumes "i < requestIdRef s"
  shows "previewUrl (resolve i b s) = previewUrl s" "applied (resolve i b s) = applied s"
    "console (resolve i b s) = console s" "revoked (resolve i b s) = revoked s"
    "localLoading (resolve i b s) = localLoading s"
  using assms by (simp_all add: resolve_def Let_def split: option.splits)

lemma stale_reject:
  assumes "i < requestIdRef s"
  shows "previewUrl (reject i e s) = previewUrl s" "applied (reject i e s) = applied s"
    "console (reject i e s) = console s" "revoked (reject i e s) = revoked s"
    "localLoading (reject i e s) = localLoading s"
  using assms by (simp_all add: reject_def Let_def split: option.splits)

lemmas sched_eval =
  sched_run_def init_sched_def render_def preview_deps_def effect_run_def run_cleanup_def
  timer_fire_def resolve_def reject_def Let_def DEFAULT_EDIT_STATE_def brighter_def
  punchier_def photo_def

text \<open>
  C1.  Within one file selection, whatever the order in which responses, timeouts and edit
  changes arrive: the runs whose responses were applied have strictly increasing sequence
  numbers, so the one applied last is the highest; the displayed resource is what that
  response set (a URL for its bytes, or none if it was a failure); every applied entry comes
  from a response among the events; and a response numbered below the latest sequence number
  changes neither the displayed resource nor the console, the loading flag or the revoked
  URLs: it is dropped silently.
\<close>

theorem displayed_is_highest_applied:
  assumes "list_all in_context evs"
  shows "sorted_wrt (<) (map fst (applied (sched_run evs (init_sched (Some f))))) \<and>
         previewUrl (sched_run evs (init_sched (Some f))) =
           (if applied (sched_run evs (init_sched (Some f))) = [] then None
            else snd (last (applied (sched_run evs (init_sched (Some f)))))) \<and>
         (\<forall>a \<in> set (applied (sched_run evs (init_sched (Some f)))). from_response evs a) \<and>
         (\<forall>i b e. i < requestIdRef (sched_run evs (init_sched (Some f))) \<longrightarrow>
            previewUrl (sched_step (sched_run evs (init_sched (Some f))) (Resolve i b)) =
              previewUrl (sched_run evs (init_sched (Some f))) \<and>
            previewUrl (sched_step (sched_run evs (init_sched (Some f))) (Reject i e)) =
              previewUrl (sched_run evs (init_sched (Some f))) \<and>
            console (sched_step (sched_run evs (init_sched (Some f))) (Resolve i b)) =
              console (sched_run evs (init_sched (Some f))) \<and>
            console (sched_step (sched_run evs (init_sched (Some f))) (Reject i e)) =
              console (sched_run evs (init_sched (Some f))) \<and>
            localLoading (sched_step (sched_run evs (init_sched (Some f))) (Resolve i b)) =
              localLoading (sched_run evs (init_sched (Some f))) \<and>
            localLoading (sched_step (sched_run evs (init_sched (Some f))) (Reject i e)) =
              localLoading (sched_run evs (init_sched (Some f))) \<and>
            revoked (sched_step (sched_run evs (init_sched (Some f))) (Resolve i b)) =
              revoked (sched_run evs (init_sched (Some f))))"
proof -
  let ?s = "sched_run evs (init_sched (Some f))"
  have inv: "sched_inv ?s"
    using sched_inv_init assms by (rule sched_inv_run)
  have prov: "from_response evs a" if "a \<in> set (applied ?s)" for a
    using applied_run [OF that] by (simp add: init_sched_def)
  show ?thesis
    using inv prov by (simp add: sched_inv_def stale_resolve stale_reject)
qed

text \<open>
  Two requests answered in the opposite order: run 2 is answered first and displayed; the
  answer of run 1, arriving afterwards, is dropped.
\<close>

theorem displayed_is_highest_applied_witness:
  "list_all in_context
     [Change 0 (EditsChanged brighter), TimerDue 1, Change 200 (EditsChanged punchier),
      TimerDue 2, Resolve 2 [7]] \<and>
   applied (sched_run
     [Change 0 (EditsChanged brighter), TimerDue 1, Change 200 (EditsChanged punchier),
      TimerDue 2, Resolve 2 [7]] (init_sched (Some photo))) = [(2, Some (0, [7]))] \<and>
   previewUrl (sched_run
     [Change 0 (EditsChanged brighter), TimerDue 1, Change 200 (EditsChanged punchier),
      TimerDue 2, Resolve 2 [7], Resolve 1 [9]] (init_sched (Some photo))) = Some (0, [7])"
proof -
  let ?evs = "[Change 0 (EditsChanged brighter), TimerDue 1,
               Change 200 (EditsChanged punchier), TimerDue 2, Resolve 2 [7]]"
  let ?s = "sched_run ?evs (init_sched (Some photo))"
  have ctx: "list_all in_context ?evs"
    by simp
  have a: "applied ?s = [(2, Some (0, [7]))]"
    by (simp add: sched_eval)
  have r: "requestIdRef ?s = 2"
    by (simp add: sched_eval)
  have "previewUrl (sched_step ?s (Resolve 1 [9])) = previewUrl ?s"
    using displayed_is_highest_applied [OF ctx, of photo] r by simp
  moreover have "previewUrl ?s = Some (0, [7])"
    using displayed_is_highest_applied [OF ctx, of photo] a by simp
  moreover have "sched_run (?evs @ [Resolve 1 [9]]) (init_sched (Some photo)) =
                 sched_step ?s (Resolve 1 [9])"
    by (rule sched_run_snoc)
  ultimately show ?thesis
    using ctx a by simp
qed

subsection \<open>Failures\<close>

text \<open>
  C6, as the code has it.  When a request fails and has not been superseded (its run is in
  flight, not cancelled, and numbered \<open>requestIdRef\<close>), the failure is not fatal: the displayed
  resource is cleared, so the placeholder is shown; the loading flag is cleared; the failure
  is written to the console and to nothing the interface reads (the store's \<open>error\<close> is
  unchanged); and nothing is retried: no request is issued and no timeout is set.
\<close>

theorem unsuperseded_failure:
  assumes "i \<in> set (inflight s)" and "effects s i = Some c" and "\<not> c_cancelled c"
    and "i = requestIdRef s"
  shows "previewUrl (sched_step s (Reject i e)) = None \<and>
         localLoading (sched_step s (Reject i e)) = False \<and>
         console (sched_step s (Reject i e)) = console s @ [''Preview failed: '' @ e] \<and>
         error (sched_step s (Reject i e)) = error s \<and>
         requests (sched_step s (Reject i e)) = requests s \<and>
         timers (sched_step s (Reject i e)) = timers s \<and>
         inflight (sched_step s (Reject i e)) = removeAll i (inflight s) \<and>
         requestIdRef (sched_step s (Reject i e)) = requestIdRef s"
  using assms by (simp add: reject_def Let_def)

text \<open>
  A preview is displayed, the edits change, and the second request fails: the displayed
  preview is cleared, not retained.
\<close>

theorem unsuperseded_failure_witness:
  "previewUrl (sched_run
     [Change 0 (EditsChanged brighter), TimerDue 1, Resolve 1 [7],
      Change 500 (EditsChanged punchier), TimerDue 2] (init_sched (Some photo))) =
     Some (0, [7]) \<and>
   previewUrl (sched_run
     [Change 0 (EditsChanged brighter), TimerDue 1, Resolve 1 [7],
      Change 500 (EditsChanged punchier), TimerDue 2, Reject 2 ''ProcessingError'']
     (init_sched (Some photo))) = None \<and>
   requests (sched_run
     [Change 0 (EditsChanged brighter), TimerDue 1, Resolve 1 [7],
      Change 500 (EditsChanged punchier), TimerDue 2, Reject 2 ''ProcessingError'']
     (init_sched (Some photo))) =
   requests (sched_run
     [Change 0 (EditsChanged brighter), TimerDue 1, Resolve 1 [7],
      Change 500 (EditsChanged punchier), TimerDue 2] (init_sched (Some photo)))"
proof -
  let ?evs = "[Change 0 (EditsChanged brighter), TimerDue 1, Resolve 1 [7],
               Change 500 (EditsChanged punchier), TimerDue 2]"
  let ?s = "sched_run ?evs (init_sched (Some photo))"
  let ?c = "\<lparr>c_file = photo, c_edits = punchier, c_previewUrl = Some (0, [7]),
             c_cancelled = False, c_deadline = 650\<rparr>"
  have i: "2 \<in> set (inflight ?s)"
    by (simp add: sched_eval)
  have c: "effects ?s 2 = Some ?c"
    by (simp add: sched_eval)
  have n: "\<not> c_cancelled ?c"
    by simp
  have r: "2 = requestIdRef ?s"
    by (simp add: sched_eval)
  have p: "previewUrl ?s = Some (0, [7])"
    by (simp add: sched_eval)
  have "sched_run (?evs @ [Reject 2 ''ProcessingError'']) (init_sched (Some photo)) =
        sched_step ?s (Reject 2 ''ProcessingError'')"
    by (rule sched_run_snoc)
  then show ?thesis
    using unsuperseded_failure [OF i c n r, of "''ProcessingError''"] p by simp
qed

text \<open>
  C6 as stated fails where it says that the failure is exposed for presentation.  After a
  request fails, what the interface shows of the scheduler is what it showed before the
  request was sent: no preview, no spinner, no error.  The failure is on the console only.
\<close>

theorem failure_not_presented:
  "presented (sched_run [Change 0 (EditsChanged brighter), TimerDue 1, Reject 1 ''DecodeError'']
     (init_sched (Some photo))) =
   presented (sched_run [Change 0 (EditsChanged brighter)] (init_sched (Some photo))) \<and>
   error (sched_run [Change 0 (EditsChanged brighter), TimerDue 1, Reject 1 ''DecodeError'']
     (init_sched (Some photo))) = None \<and>
   console (sched_run [Change 0 (EditsChanged brighter), TimerDue 1, Reject 1 ''DecodeError'']
     (init_sched (Some photo))) = [''Preview failed: DecodeError'']"
  by (simp add: presented_def sched_eval)

subsection \<open>Debounce\<close>










text \<open>A change that alters no dependency does nothing: the effect does not run.\<close>

lemma unlisted_change_ignored:
  "lastDeps s = Some (preview_deps (selectedFile s) e) \<Longrightarrow> apply_change t (EditsChanged e) s = s"
  by (simp add: render_def)








text \<open>
  A change of \<open>sharpeningRadius\<close> alone does not qualify, the field not being a dependency
  of the effect.  Made 50ms after a change of the exposure, it restarts nothing: the request
  goes out at 150ms, with the radius as it was at 0ms.
\<close>

lemma radius_change_does_not_restart:
  "\<not> qualifying (lastDeps (init_sched (Some photo))) (selectedFile (init_sched (Some photo)))
      [(0, EditsChanged brighter), (50, EditsChanged (brighter\<lparr>sharpeningRadius := 2\<rparr>))] \<and>
   requests (fire_due 150 (run_changes
      [(0, EditsChanged brighter), (50, EditsChanged (brighter\<lparr>sharpeningRadius := 2\<rparr>))]
      (init_sched (Some photo)))) =
     [\<lparr>req_time = 150, req_file = ''abc-123'', req_edits = brighter, req_maxSize = 1600\<rparr>]"
  by (simp add: run_changes_def fire_due_def is_due_def sched_eval)

section \<open>Compare mode\<close>

lemma next_mode_pow:
  "(next_mode ^^ n) cmp_off =
     (if n mod 3 = 0 then cmp_off else if n mod 3 = 1 then cmp_split else cmp_toggle)"
proof (induction n)
  case 0
  then show ?case by simp
next
  case (Suc n)
  have "n mod 3 = 0 \<or> n mod 3 = 1 \<or> n mod 3 = 2"
    by linarith
  then show ?case
    using Suc by (auto simp: mod_Suc)
qed

lemma entries_Suc:
  "Suc n - Suc n div 3 = (n - n div 3) + (if Suc n mod 3 = 0 then 0 else 1)"
  by (simp add: div_Suc Suc_diff_le)

text \<open>A click issues a request exactly when the mode it lands on is not \<open>off\<close>.\<close>

lemma click_requests:
  assumes "cmp_file s = Some f"
  shows "beforeRequests (compare_step s (CompareClick t)) =
     beforeRequests s @
       (if next_mode (compareMode s) = cmp_off then []
        else [\<lparr>req_time = t, req_file = file_id f, req_edits = DEFAULT_EDIT_STATE,
               req_maxSize = 1600\<rparr>])"
  using assms
  by (auto simp: compare_effect_def compare_cleanup_def Let_def split: option.splits)

text \<open>
  A click that lands on \<open>off\<close> releases the \<open>before\<close> resource: the URL held is revoked
  and \<open>beforeUrl\<close> is cleared.
\<close>

lemma click_off_releases:
  assumes "next_mode (compareMode s) = cmp_off"
  shows "beforeUrl (compare_step s (CompareClick t)) = None"
    and "cmp_revoked (compare_step s (CompareClick t)) =
         cmp_revoked s @ (case beforeUrl s of None \<Rightarrow> [] | Some u \<Rightarrow> [u])"
  using assms
  by (auto simp: compare_effect_def compare_cleanup_def Let_def split: option.splits)

lemma click_fields:
  "cmp_file (compare_step s (CompareClick t)) = cmp_file s"
  "compareMode (compare_step s (CompareClick t)) = next_mode (compareMode s)"
  by (auto simp: compare_effect_def compare_cleanup_def Let_def split: option.splits)

lemma response_fields:
  "cmp_file (before_resolve k b s) = cmp_file s"
  "compareMode (before_resolve k b s) = compareMode s"
  "beforeRequests (before_resolve k b s) = beforeRequests s"
  "cmp_file (before_reject k e s) = cmp_file s"
  "compareMode (before_reject k e s) = compareMode s"
  "beforeRequests (before_reject k e s) = beforeRequests s"
  by (auto simp: before_resolve_def before_reject_def Let_def split: option.splits)

lemma cmp_inv_click:
  assumes "cmp_inv f n s"
  shows "cmp_inv f (Suc n) (compare_step s (CompareClick t))"
proof -
  have f: "cmp_file s = Some f"
    using assms by (simp add: cmp_inv_def)
  have m: "next_mode (compareMode s) = (next_mode ^^ Suc n) cmp_off"
    using assms by (simp add: cmp_inv_def)
  have landed_off: "next_mode (compareMode s) = cmp_off \<longleftrightarrow> Suc n mod 3 = 0"
    unfolding m next_mode_pow by simp
  have r: "map req_key (beforeRequests s) =
           replicate (n - n div 3) (file_id f, DEFAULT_EDIT_STATE, 1600)"
    using assms by (simp add: cmp_inv_def)
  have "map req_key (beforeRequests (compare_step s (CompareClick t))) =
        replicate (Suc n - Suc n div 3) (file_id f, DEFAULT_EDIT_STATE, 1600)"
    unfolding click_requests [OF f] entries_Suc replicate_add map_append r
    using landed_off by (simp add: req_key_def)
  then show ?thesis
    unfolding cmp_inv_def click_fields using f m by simp
qed

lemma compare_run_snoc: "compare_run (evs @ [ev]) s = compare_step (compare_run evs s) ev"
  by (simp add: compare_run_def)

lemma cmp_inv_run: "cmp_inv f (clicks evs) (compare_run evs (init_compare (Some f)))"
proof (induction evs rule: rev_induct)
  case Nil
  then show ?case
    by (simp add: cmp_inv_def compare_run_def clicks_def init_compare_def)
next
  case (snoc ev evs)
  show ?case
  proof (cases ev)
    case (CompareClick t)
    then have "clicks (evs @ [ev]) = Suc (clicks evs)"
      by (simp add: clicks_def)
    then show ?thesis
      using snoc cmp_inv_click CompareClick
      by (simp add: compare_run_snoc del: compare_step.simps)
  next
    case (BeforeResolve k b)
    then have "clicks (evs @ [ev]) = clicks evs"
      by (simp add: clicks_def)
    then show ?thesis
      using snoc BeforeResolve by (simp add: compare_run_snoc cmp_inv_def response_fields)
  next
    case (BeforeReject k e)
    then have "clicks (evs @ [ev]) = clicks evs"
      by (simp add: clicks_def)
    then show ?thesis
      using snoc BeforeReject by (simp add: compare_run_snoc cmp_inv_def response_fields)
  qed
qed

lemmas compare_eval =
  compare_run_def init_compare_def compare_effect_def compare_cleanup_def before_resolve_def
  before_reject_def Let_def photo_def

text \<open>
  C5, as the code has it.  For a fixed selected file, every click that changes the compare
  mode to \<open>split\<close> or \<open>toggle\<close> issues exactly one \<open>before\<close> request, for that file with the
  default edit state and size 1600, whether or not a \<open>before\<close> resource is held; a click that
  changes the mode to \<open>off\<close> issues none and releases the \<open>before\<close> resource held (its URL is
  revoked and \<open>beforeUrl\<close> cleared); responses issue none.  So after \<open>n\<close> clicks from \<open>off\<close>,
  in any interleaving with the responses, \<open>n - n div 3\<close> requests have been issued: two for
  every round of the cycle.
\<close>

theorem before_request_per_entry:
  "map req_key (beforeRequests (compare_run evs (init_compare (Some f)))) =
     replicate (clicks evs - clicks evs div 3) (file_id f, DEFAULT_EDIT_STATE, 1600) \<and>
   compareMode (compare_run evs (init_compare (Some f))) = (next_mode ^^ clicks evs) cmp_off \<and>
   (\<forall>s t. cmp_file s = Some f \<longrightarrow>
      beforeRequests (compare_step s (CompareClick t)) =
        beforeRequests s @
          (if next_mode (compareMode s) = cmp_off then []
           else [\<lparr>req_time = t, req_file = file_id f, req_edits = DEFAULT_EDIT_STATE,
                  req_maxSize = 1600\<rparr>]) \<and>
      (next_mode (compareMode s) = cmp_off \<longrightarrow>
         beforeUrl (compare_step s (CompareClick t)) = None \<and>
         cmp_revoked (compare_step s (CompareClick t)) =
           cmp_revoked s @ (case beforeUrl s of None \<Rightarrow> [] | Some u \<Rightarrow> [u])))"
proof -
  have "cmp_inv f (clicks evs) (compare_run evs (init_compare (Some f)))"
    by (rule cmp_inv_run)
  then show ?thesis
    using click_requests [of _ f] click_off_releases by (simp add: cmp_inv_def)
qed

text \<open>
  Split is entered and its \<open>before\<close> image arrives; the click to \<open>toggle\<close> issues a second
  request although the image is held; the second image arrives and replaces the first; the
  click to \<open>off\<close> issues no request, revokes the second image and clears \<open>beforeUrl\<close>.
\<close>

theorem before_request_per_entry_witness:
  "cmp_file (compare_run [CompareClick 0, BeforeResolve 1 [7]] (init_compare (Some photo))) =
     Some photo \<and>
   beforeUrl (compare_run [CompareClick 0, BeforeResolve 1 [7]] (init_compare (Some photo))) =
     Some (0, [7]) \<and>
   beforeRequests (compare_run [CompareClick 0, BeforeResolve 1 [7], CompareClick 1000]
     (init_compare (Some photo))) =
     [\<lparr>req_time = 0, req_file = ''abc-123'', req_edits = DEFAULT_EDIT_STATE,
       req_maxSize = 1600\<rparr>,
      \<lparr>req_time = 1000, req_file = ''abc-123'', req_edits = DEFAULT_EDIT_STATE,
       req_maxSize = 1600\<rparr>] \<and>
   beforeUrl (compare_run
     [CompareClick 0, BeforeResolve 1 [7], CompareClick 1000, BeforeResolve 2 [8]]
     (init_compare (Some photo))) = Some (1, [8]) \<and>
   beforeUrl (compare_run
     [CompareClick 0, BeforeResolve 1 [7], CompareClick 1000, BeforeResolve 2 [8],
      CompareClick 2000] (init_compare (Some photo))) = None \<and>
   cmp_revoked (compare_run
     [CompareClick 0, BeforeResolve 1 [7], CompareClick 1000, BeforeResolve 2 [8],
      CompareClick 2000] (init_compare (Some photo))) = [(0, [7]), (1, [8])] \<and>
   length (beforeRequests (compare_run
     [CompareClick 0, BeforeResolve 1 [7], CompareClick 1000, BeforeResolve 2 [8],
      CompareClick 2000] (init_compare (Some photo)))) = 2"
proof -
  let ?s = "compare_run [CompareClick 0, BeforeResolve 1 [7]] (init_compare (Some photo))"
  let ?evs = "[CompareClick 0, BeforeResolve 1 [7], CompareClick 1000, BeforeResolve 2 [8]]"
  let ?s2 = "compare_run ?evs (init_compare (Some photo))"
  have f: "cmp_file ?s = Some photo"
    by (simp add: compare_eval)
  have u: "beforeUrl ?s = Some (0, [7])"
    by (simp add: compare_eval)
  have m: "next_mode (compareMode ?s) = cmp_toggle"
    by (simp add: compare_eval)
  have r: "beforeRequests ?s =
      [\<lparr>req_time = 0, req_file = ''abc-123'', req_edits = DEFAULT_EDIT_STATE,
        req_maxSize = 1600\<rparr>]"
    by (simp add: compare_eval)
  have step: "beforeRequests (compare_step ?s (CompareClick 1000)) =
      beforeRequests ?s @
        (if next_mode (compareMode ?s) = cmp_off then []
         else [\<lparr>req_time = 1000, req_file = file_id photo, req_edits = DEFAULT_EDIT_STATE,
                req_maxSize = 1600\<rparr>])"
    using before_request_per_entry [of "[]" photo] f by blast
  have run1: "compare_run ([CompareClick 0, BeforeResolve 1 [7]] @ [CompareClick 1000])
          (init_compare (Some photo)) = compare_step ?s (CompareClick 1000)"
    by (rule compare_run_snoc)
  have f2: "cmp_file ?s2 = Some photo"
    by (simp add: compare_eval)
  have u2: "beforeUrl ?s2 = Some (1, [8])"
    by (simp add: compare_eval)
  have v2: "cmp_revoked ?s2 = [(0, [7])]"
    by (simp add: compare_eval)
  have m2: "next_mode (compareMode ?s2) = cmp_off"
    by (simp add: compare_eval)
  have n2: "length (beforeRequests ?s2) = 2"
    by (simp add: compare_eval)
  have off: "beforeRequests (compare_step ?s2 (CompareClick 2000)) =
        beforeRequests ?s2 @
          (if next_mode (compareMode ?s2) = cmp_off then []
           else [\<lparr>req_time = 2000, req_file = file_id photo, req_edits = DEFAULT_EDIT_STATE,
                  req_maxSize = 1600\<rparr>]) \<and>
      (next_mode (compareMode ?s2) = cmp_off \<longrightarrow>
         beforeUrl (compare_step ?s2 (CompareClick 2000)) = None \<and>
         cmp_revoked (compare_step ?s2 (CompareClick 2000)) =
           cmp_revoked ?s2 @ (case beforeUrl ?s2 of None \<Rightarrow> [] | Some u \<Rightarrow> [u]))"
    using before_request_per_entry [of "[]" photo] f2 by blast
  have run2: "compare_run (?evs @ [CompareClick 2000]) (init_compare (Some photo)) =
              compare_step ?s2 (CompareClick 2000)"
    by (rule compare_run_snoc)
  have a: "beforeRequests (compare_run [CompareClick 0, BeforeResolve 1 [7], CompareClick 1000]
     (init_compare (Some photo))) =
     [\<lparr>req_time = 0, req_file = ''abc-123'', req_edits = DEFAULT_EDIT_STATE,
       req_maxSize = 1600\<rparr>,
      \<lparr>req_time = 1000, req_file = ''abc-123'', req_edits = DEFAULT_EDIT_STATE,
       req_maxSize = 1600\<rparr>]"
    using run1 step unfolding m r by (simp add: photo_def)
  have b: "beforeUrl (compare_run
     [CompareClick 0, BeforeResolve 1 [7], CompareClick 1000, BeforeResolve 2 [8],
      CompareClick 2000] (init_compare (Some photo))) = None"
    using run2 off m2 by simp
  have c: "cmp_revoked (compare_run
     [CompareClick 0, BeforeResolve 1 [7], CompareClick 1000, BeforeResolve 2 [8],
      CompareClick 2000] (init_compare (Some photo))) = [(0, [7]), (1, [8])]"
    using run2 off m2 u2 v2 by simp
  have d: "length (beforeRequests (compare_run
     [CompareClick 0, BeforeResolve 1 [7], CompareClick 1000, BeforeResolve 2 [8],
      CompareClick 2000] (init_compare (Some photo)))) = 2"
    using run2 off m2 n2 by simp
  show ?thesis
    using f u a u2 b c d by blast
qed

text \<open>
  C5 as stated fails.  One round \<open>off\<close>, \<open>split\<close>, \<open>toggle\<close>, \<open>off\<close> and a re-entry into
  \<open>split\<close>, each \<open>before\<close> image arriving before the next click, the file never changing:
  three \<open>before\<close> requests are issued, not one.
\<close>

theorem before_request_reissued:
  "length (beforeRequests (compare_run
     [CompareClick 0, BeforeResolve 1 [7], CompareClick 1000, BeforeResolve 2 [7],
      CompareClick 2000, CompareClick 3000] (init_compare (Some photo)))) = 3 \<and>
   map req_time (beforeRequests (compare_run
     [CompareClick 0, BeforeResolve 1 [7], CompareClick 1000, BeforeResolve 2 [7],
      CompareClick 2000, CompareClick 3000] (init_compare (Some photo)))) = [0, 1000, 3000] \<and>
   compareMode (compare_run
     [CompareClick 0, BeforeResolve 1 [7], CompareClick 1000, BeforeResolve 2 [7],
      CompareClick 2000, CompareClick 3000] (init_compare (Some photo))) = cmp_split"
  by (simp add: compare_eval)

end
